theory Spec2Isabelle
  imports Main "HOL-Library.Sublist" "HOL-Library.Finite_Map"
begin

section \<open>JavaScript values\<close>

text \<open>
  The payload exchanged with the backend is dynamically typed JSON, and the code inspects
  it with truthiness tests, optional chaining and object spread. Values are therefore
  modelled as a datatype of JavaScript values. An object is the finite map of its own
  enumerable properties (the program never observes their order). Numbers are restricted
  to integers
  (timestamps are integer epoch milliseconds; the code only ever asks whether a number
  is zero), and text is restricted to the code units U+0000..U+00FF, one \<open>char\<close> per
  UTF-16 code unit.
\<close>

datatype jsval =
    JUndefined
  | JNull
  | JBool bool
  | JNum int
  | JStr string
  | JArr "jsval list"
  | JObj "(string, jsval) fmap"

datatype js_error =
    NetworkFailure
  | BodyReadFailure
  | BackendError string
  | StatusFetchError string
  | TypeError

text \<open>ToBoolean: what \<open>!x\<close>, \<open>x || y\<close> and \<open>if (x)\<close> test.\<close>

fun truthy :: "jsval \<Rightarrow> bool" where
  "truthy JUndefined = False"
| "truthy JNull = False"
| "truthy (JBool b) = b"
| "truthy (JNum n) = (n \<noteq> 0)"
| "truthy (JStr s) = (s \<noteq> [])"
| "truthy (JArr vs) = True"
| "truthy (JObj kvs) = True"

fun nullish :: "jsval \<Rightarrow> bool" where
  "nullish JUndefined = True"
| "nullish JNull = True"
| "nullish v = False"

text \<open>
  Property read \<open>v.k\<close> for the property names the program uses (\<open>messages\<close>,
  \<open>agentStatus\<close>, \<open>role\<close>, \<open>agentId\<close>, \<open>content\<close>, \<open>timestamp\<close>): a TypeError on
  \<open>null\<close> and \<open>undefined\<close>, the own property of an object, \<open>undefined\<close> when the object
  has none and on numbers, booleans, strings and arrays, which inherit no property of
  these names.
\<close>

fun getProp :: "jsval \<Rightarrow> string \<Rightarrow> js_error + jsval" where
  "getProp JUndefined k = Inl TypeError"
| "getProp JNull k = Inl TypeError"
| "getProp (JObj kvs) k = Inr (case fmlookup kvs k of None \<Rightarrow> JUndefined | Some v \<Rightarrow> v)"
| "getProp v k = Inr JUndefined"

text \<open>Optional chaining \<open>v?.k\<close>: \<open>undefined\<close> instead of the TypeError.\<close>

definition optProp :: "jsval \<Rightarrow> string \<Rightarrow> jsval" where
  "optProp v k = (case getProp v k of Inl e \<Rightarrow> JUndefined | Inr x \<Rightarrow> x)"

section \<open>Strings\<close>

text \<open>
  Decimal rendering of a number inside a template literal; \<open>digit\<close> is only applied
  to numbers below ten.
\<close>

definition digit :: "nat \<Rightarrow> char" where
  "digit d = ''0123456789'' ! d"

function show_nat :: "nat \<Rightarrow> string" where
  "show_nat n = (if n < 10 then [digit n] else show_nat (n div 10) @ [digit (n mod 10)])"
  by pat_completeness auto
termination
  by (relation "measure id") auto

declare show_nat.simps [simp del]

definition show_int :: "int \<Rightarrow> string" where
  "show_int i = (if i < 0 then CHR ''-'' # show_nat (nat (- i)) else show_nat (nat i))"

text \<open>
  \<open>String.prototype.toLowerCase\<close> on the code units U+0000..U+00FF: the ASCII capitals
  and the Latin-1 capitals U+00C0..U+00DE (U+00D7, the multiplication sign, is not a
  letter) move up by 32; every other code unit is its own lower case.
\<close>

definition lowerChar :: "char \<Rightarrow> char" where
  "lowerChar c =
     (let n = (of_char c :: nat)
      in if (65 \<le> n \<and> n \<le> 90) \<or> (192 \<le> n \<and> n \<le> 222 \<and> n \<noteq> 215)
         then char_of (n + 32) else c)"

definition toLowerCase :: "string \<Rightarrow> string" where
  "toLowerCase s = map lowerChar s"

text \<open>\<open>String.prototype.includes\<close>: the search string occurs at some position.\<close>

fun includes_str :: "string \<Rightarrow> string \<Rightarrow> bool" where
  "includes_str [] sub = (sub = [])"
| "includes_str (c # s) sub = (prefix sub (c # s) \<or> includes_str s sub)"

text \<open>\<open>s.slice(0, n)\<close> for a non-negative \<open>n\<close>: the first \<open>n\<close> code units.\<close>

definition slice0 :: "string \<Rightarrow> nat \<Rightarrow> string" where
  "slice0 s n = take n s"

text \<open>
  \<open>String.prototype.trim\<close>: white space and line terminators are removed at both ends.
  Below U+0100 these are TAB, LF, VT, FF, CR, SPACE and NBSP.
\<close>

definition isWhiteSpace :: "char \<Rightarrow> bool" where
  "isWhiteSpace c = ((of_char c :: nat) \<in> {9, 10, 11, 12, 13, 32, 160})"

definition trim :: "string \<Rightarrow> string" where
  "trim s = rev (dropWhile isWhiteSpace (rev (dropWhile isWhiteSpace s)))"

section \<open>Objects\<close>

text \<open>An object literal, given by its properties.\<close>

definition object :: "(string \<times> jsval) list \<Rightarrow> (string, jsval) fmap" where
  "object kvs = fmap_of_list kvs"

text \<open>
  Assignment of one property, and object spread \<open>{...target, ...src}\<close>, which copies the
  own enumerable properties of \<open>src\<close> over those of \<open>target\<close>.
\<close>

definition setProp :: "(string, jsval) fmap \<Rightarrow> string \<Rightarrow> jsval \<Rightarrow> (string, jsval) fmap" where
  "setProp obj k v = fmupd k v obj"

definition spread :: "(string, jsval) fmap \<Rightarrow> (string, jsval) fmap \<Rightarrow> (string, jsval) fmap" where
  "spread target src = fmadd target src"

text \<open>
  The own enumerable properties that a spread reads from a value: those of an object,
  the indexed elements of an array, the indexed characters of a string, none otherwise.
\<close>

fun ownProps :: "jsval \<Rightarrow> (string, jsval) fmap" where
  "ownProps (JObj kvs) = kvs"
| "ownProps (JArr vs) = fmap_of_list (zip (map show_nat [0..<length vs]) vs)"
| "ownProps (JStr s) = fmap_of_list (zip (map show_nat [0..<length s]) (map (\<lambda>c. JStr [c]) s))"
| "ownProps v = fmempty"

section \<open>The Response Simulator\<close>

definition ragReply :: string where
  "ragReply = ''I searched our knowledge base and found related insights to your question.''"

definition planTemplate :: string where
  "planTemplate = ''Here is a step-by-step plan: 1) Analyze 2) Retrieve 3) Synthesize 4) Validate.''"

definition genericTemplate :: string where
  "genericTemplate = ''I will coordinate the agents to craft a helpful reply.''"

definition helpful :: "string \<Rightarrow> bool" where
  "helpful text = (let lower = toLowerCase text in includes_str lower ''plan'' \<or> includes_str lower ''how'')"

definition plannerReply :: "string \<Rightarrow> string" where
  "plannerReply text = (if helpful text then planTemplate else genericTemplate)"

definition simulateAgentResponse :: "string \<Rightarrow> jsval" where
  "simulateAgentResponse text =
     JObj (object [
       (''messages'', JArr [
          JObj (object [(''role'', JStr ''agent''),
                        (''agentId'', JStr ''agent_rag''),
                        (''content'', JStr (ragReply @ '' '' @ [CHR 0x22] @ slice0 text 60 @ [CHR 0x22]))]),
          JObj (object [(''role'', JStr ''agent''),
                        (''agentId'', JStr ''agent_planner''),
                        (''content'', JStr (plannerReply text))])]),
       (''agentStatus'', JObj (object [(''agent_rag'', JStr ''responding''),
                                       (''agent_planner'', JStr ''thinking'')]))])"

section \<open>The clock\<close>

text \<open>
  \<open>Date.now()\<close> reads the environment. The clock is the sequence of the readings still
  to come; a call returns the first one and leaves the rest, so that no two calls are
  assumed to return the same value.
\<close>

type_synonym clock = "nat \<Rightarrow> int"

definition Date_now :: "clock \<Rightarrow> int \<times> clock" where
  "Date_now c = (c 0, \<lambda>n. c (Suc n))"

section \<open>Application state\<close>

text \<open>
  A chat message as the Message Store holds it. A property that the object literal does
  not set reads as \<open>undefined\<close>. (In the second greeting the source's typographic
  apostrophe, U+2019, lies outside the modelled code units and is written \<open>'\<close>.)
\<close>

record ChatMessage =
  msgId :: string
  role :: jsval
  agentId :: jsval
  content :: jsval
  timestamp :: jsval
  error :: jsval

text \<open>
  The state containers of \<open>App\<close>, and the timeouts that \<open>handleSend\<close> has scheduled and
  that have not fired yet (their delays; each runs \<open>resetStatus\<close>).
\<close>

record app_state =
  messages :: "ChatMessage list"
  input :: string
  agentStatus :: "(string, jsval) fmap"
  isSending :: bool
  timers :: "nat list"

definition initialState :: "clock \<Rightarrow> app_state \<times> clock" where
  "initialState c =
     (let (t1, c1) = Date_now c;
          (t2, c2) = Date_now c1
      in (\<lparr>messages =
             [\<lparr>msgId = ''m1'', role = JStr ''agent'', agentId = JStr ''agent_rag'',
               content = JStr ''Hello! I'm your RAG Researcher. Ask me anything and I'll fetch relevant knowledge to help us.'',
               timestamp = JNum (t1 - 60000), error = JUndefined\<rparr>,
              \<lparr>msgId = ''m2'', role = JStr ''agent'', agentId = JStr ''agent_planner'',
               content = JStr ''And I'm the MCP Planner! I'll organize steps and coordinate agents to build complete answers.'',
               timestamp = JNum (t2 - 45000), error = JUndefined\<rparr>],
           input = [],
           agentStatus = object [(''agent_rag'', JStr ''idle''), (''agent_planner'', JStr ''idle'')],
           isSending = False,
           timers = []\<rparr>, c2))"

text \<open>The composer's \<open>onChange\<close>: typing replaces the input buffer.\<close>

definition setInput :: "string \<Rightarrow> app_state \<Rightarrow> app_state" where
  "setInput v st = st\<lparr>input := v\<rparr>"

text \<open>The callback of the 1200 ms timeout.\<close>

definition resetStatus :: "app_state \<Rightarrow> app_state" where
  "resetStatus st =
     st\<lparr>agentStatus := object [(''agent_rag'', JStr ''idle''), (''agent_planner'', JStr ''idle'')],
        timers := tl (timers st)\<rparr>"

section \<open>The Backend Client\<close>

text \<open>
  What \<open>fetch\<close> settles with. A response carries its status code, what \<open>res.text()\<close>
  resolves with (\<open>None\<close> when reading the body rejects) and what \<open>res.json()\<close> resolves
  with (\<open>None\<close> when reading or parsing the body rejects). \<open>res.ok\<close> is, by the Fetch
  standard, true for the status codes 200 to 299.
\<close>

record http_response =
  status :: nat
  bodyText :: "string option"
  bodyJson :: "jsval option"

definition ok :: "http_response \<Rightarrow> bool" where
  "ok res = (200 \<le> status res \<and> status res \<le> 299)"

datatype fetch_result = Rejected | Resolved http_response

text \<open>\<open>await res.json().catch(() => null)\<close>\<close>

definition jsonOrNull :: "http_response \<Rightarrow> jsval" where
  "jsonOrNull res = (case bodyJson res of None \<Rightarrow> JNull | Some v \<Rightarrow> v)"

text \<open>
  \<open>sendMessageToBackend\<close>: the body of the \<open>try\<close> block, and the function itself, whose
  \<open>catch\<close> clause logs the error and throws it again.
\<close>

definition sendMessage_try :: "string \<Rightarrow> fetch_result \<Rightarrow> js_error + jsval" where
  "sendMessage_try text fr =
     (case fr of
        Rejected \<Rightarrow> Inl NetworkFailure
      | Resolved res \<Rightarrow>
          if \<not> ok res then
            (case bodyText res of
               None \<Rightarrow> Inl BodyReadFailure
             | Some msg \<Rightarrow>
                 Inl (BackendError (''Backend error: '' @ (if msg \<noteq> [] then msg else show_nat (status res)))))
          else
            (let parsed = jsonOrNull res
             in Inr (if truthy parsed then parsed else simulateAgentResponse text)))"

definition sendMessageToBackend :: "string \<Rightarrow> fetch_result \<Rightarrow> js_error + jsval" where
  "sendMessageToBackend text fr =
     (case sendMessage_try text fr of Inl err \<Rightarrow> Inl err | Inr data \<Rightarrow> Inr data)"

text \<open>
  \<open>fetchAgentStatus\<close>, which closes over the Agent Status Map of the render that created
  it (\<open>current\<close>): the body of the \<open>try\<close> block, and the function itself, whose \<open>catch\<close>
  clause returns the object \<open>{ agentStatus }\<close>.
\<close>

definition fetchStatus_try :: "(string, jsval) fmap \<Rightarrow> fetch_result \<Rightarrow> js_error + jsval" where
  "fetchStatus_try current fr =
     (case fr of
        Rejected \<Rightarrow> Inl NetworkFailure
      | Resolved res \<Rightarrow>
          if \<not> ok res then
            Inl (StatusFetchError (''Failed to fetch agent status: '' @ show_nat (status res)))
          else
            (let parsed = jsonOrNull res
             in Inr (if truthy parsed then parsed
                     else JObj (object [(''agentStatus'', JObj current)]))))"

definition fetchAgentStatus :: "(string, jsval) fmap \<Rightarrow> fetch_result \<Rightarrow> js_error + jsval" where
  "fetchAgentStatus current fr =
     (case fetchStatus_try current fr of
        Inl e \<Rightarrow> Inr (JObj (object [(''agentStatus'', JObj current)]))
      | Inr data \<Rightarrow> Inr data)"

section \<open>The Send Controller\<close>

text \<open>
  \<open>handleSend\<close> is an async function. \<open>handleSend_sync\<close> is what runs before the
  \<open>await\<close>: the new state, the text handed to \<open>sendMessageToBackend\<close> (\<open>None\<close> when the
  function returns at its guard, without a request), and the clock.

  \<open>input\<close> and \<open>isSending\<close> are constants of the render that created the closure: the
  guard and the message text read them from \<open>ren\<close>, the state as that render saw it. The
  setters act on \<open>st\<close>, the state at the time of the call: \<open>setMessages\<close> and
  \<open>setAgentStatus\<close> through updaters on the previous value, \<open>setInput\<close> and
  \<open>setIsSending\<close> with a value. The two states are the same when the component has been
  rendered again since the last change; they differ when the closure is stale.
\<close>

definition handleSend_sync ::
    "app_state \<Rightarrow> app_state \<Rightarrow> clock \<Rightarrow> app_state \<times> string option \<times> clock" where
  "handleSend_sync ren st c =
     (if trim (input ren) = [] \<or> isSending ren then (st, None, c)
      else
        (let (t1, c1) = Date_now c;
             (t2, c2) = Date_now c1;
             userMessage = \<lparr>msgId = ''u_'' @ show_int t1, role = JStr ''user'',
                            agentId = JUndefined, content = JStr (trim (input ren)),
                            timestamp = JNum t2, error = JUndefined\<rparr>
         in (st\<lparr>messages := messages st @ [userMessage],
                input := [],
                isSending := True,
                agentStatus :=
                  setProp (setProp (spread fmempty (agentStatus st)) ''agent_rag'' (JStr ''thinking''))
                    ''agent_planner'' (JStr ''idle'')\<rparr>,
             Some (trim (input ren)), c2)))"

text \<open>
  The callback of \<open>data.messages.map\<close>, at entry \<open>m\<close> and index \<open>idx\<close>. The object literal
  is evaluated in order: the id reads the clock, the property reads throw a TypeError
  when \<open>m\<close> is \<open>null\<close> or \<open>undefined\<close>, and \<open>m.timestamp || Date.now()\<close> reads the clock
  again only when \<open>m.timestamp\<close> is falsy.
\<close>

definition toChatMessage :: "clock \<Rightarrow> jsval \<Rightarrow> nat \<Rightarrow> js_error + (ChatMessage \<times> clock)" where
  "toChatMessage c m idx =
     (let (t1, c1) = Date_now c
      in case getProp m ''role'' of Inl e \<Rightarrow> Inl e | Inr r \<Rightarrow>
         (case getProp m ''agentId'' of Inl e \<Rightarrow> Inl e | Inr a \<Rightarrow>
         (case getProp m ''content'' of Inl e \<Rightarrow> Inl e | Inr ct \<Rightarrow>
         (case getProp m ''timestamp'' of Inl e \<Rightarrow> Inl e | Inr ts \<Rightarrow>
            (let (tv, c2) = (if truthy ts then (ts, c1)
                             else (let (t2, c2) = Date_now c1 in (JNum t2, c2)))
             in Inr (\<lparr>msgId = ''a_'' @ show_int t1 @ ''_'' @ show_nat idx,
                       role = r, agentId = a, content = ct, timestamp = tv,
                       error = JUndefined\<rparr>, c2))))))"

fun mapMessages :: "clock \<Rightarrow> jsval list \<Rightarrow> nat \<Rightarrow> js_error + (ChatMessage list \<times> clock)" where
  "mapMessages c [] idx = Inr ([], c)"
| "mapMessages c (m # ms) idx =
     (case toChatMessage c m idx of
        Inl e \<Rightarrow> Inl e
      | Inr (x, c1) \<Rightarrow>
          (case mapMessages c1 ms (Suc idx) of
             Inl e \<Rightarrow> Inl e
           | Inr (xs, c2) \<Rightarrow> Inr (x # xs, c2)))"

definition errorText :: string where
  "errorText = ''Oops! Something went wrong talking to the backend. Please check your connection and try again.''"

text \<open>
  \<open>handleSend_settle\<close> is what runs once the promise of \<open>sendMessageToBackend\<close> has
  settled with \<open>r\<close>, on the state of that moment: every write to the Message Store is an
  updater \<open>prev => [...prev, ...]\<close>, so what happened to the state during the wait is kept.
  The \<open>map\<close> over the returned messages runs inside the updater, which React calls
  outside the \<open>try\<close> block of \<open>handleSend\<close>: a TypeError there is not caught by the
  \<open>catch\<close> clause, it fails the render, and the model returns it as \<open>Inl\<close>.
\<close>

text \<open>
  \<open>Array.isArray(data?.messages)\<close> and, when it holds, the mapped entries that the updater
  appends.
\<close>

definition newMessages :: "clock \<Rightarrow> jsval \<Rightarrow> js_error + (ChatMessage list \<times> clock)" where
  "newMessages c data =
     (case optProp data ''messages'' of
        JArr ms \<Rightarrow> mapMessages c ms 0
      | _ \<Rightarrow> Inr ([], c))"

definition handleSend_settle ::
    "app_state \<Rightarrow> clock \<Rightarrow> js_error + jsval \<Rightarrow> js_error + (app_state \<times> clock)" where
  "handleSend_settle st c r =
     (case r of
        Inr data \<Rightarrow>
          (case newMessages c data of
             Inl e \<Rightarrow> Inl e
           | Inr (new, c1) \<Rightarrow>
               (let st1 = st\<lparr>messages := messages st @ new\<rparr>;
                    st2 = (if truthy (optProp data ''agentStatus'')
                           then st1\<lparr>agentStatus :=
                                  spread (spread fmempty (agentStatus st1))
                                    (ownProps (optProp data ''agentStatus''))\<rparr>
                           else st1\<lparr>agentStatus :=
                                  object [(''agent_rag'', JStr ''responding''),
                                          (''agent_planner'', JStr ''thinking'')],
                                  timers := timers st1 @ [1200]\<rparr>)
                in Inr (st2\<lparr>isSending := False\<rparr>, c1)))
      | Inl err \<Rightarrow>
          (let (t1, c1) = Date_now c;
               (t2, c2) = Date_now c1;
               st1 = st\<lparr>messages := messages st @
                        [\<lparr>msgId = ''err_'' @ show_int t1, role = JStr ''system'',
                          agentId = JUndefined, content = JStr errorText,
                          timestamp = JNum t2, error = JBool True\<rparr>]\<rparr>;
               st2 = st1\<lparr>agentStatus :=
                        object [(''agent_rag'', JStr ''error''), (''agent_planner'', JStr ''idle'')]\<rparr>
           in Inr (st2\<lparr>isSending := False\<rparr>, c2)))"

text \<open>A whole run of \<open>handleSend\<close> during which nothing else touches the state.\<close>

definition handleSend ::
    "app_state \<Rightarrow> app_state \<Rightarrow> clock \<Rightarrow> fetch_result \<Rightarrow> js_error + (app_state \<times> clock)" where
  "handleSend ren st c fr =
     (case handleSend_sync ren st c of
        (st1, None, c1) \<Rightarrow> Inr (st1, c1)
      | (st1, Some text, c1) \<Rightarrow> handleSend_settle st1 c1 (sendMessageToBackend text fr))"

section \<open>Reading a payload, and example inputs\<close>

text \<open>The entry \<open>i\<close> of \<open>data.messages\<close>; \<open>undefined\<close> when there is none.\<close>

definition messageAt :: "jsval \<Rightarrow> nat \<Rightarrow> jsval" where
  "messageAt data i =
     (case optProp data ''messages'' of
        JArr ms \<Rightarrow> if i < length ms then ms ! i else JUndefined
      | _ \<Rightarrow> JUndefined)"

text \<open>The messages that a run has added to the store of \<open>st\<close> (none when the render failed).\<close>

definition appended :: "app_state \<Rightarrow> js_error + (app_state \<times> clock) \<Rightarrow> ChatMessage list" where
  "appended st r =
     (case r of
        Inl e \<Rightarrow> []
      | Inr (st', c') \<Rightarrow> drop (length (messages st)) (messages st'))"

text \<open>
  The payloads on which the \<open>map\<close> callback throws nothing: no entry of the \<open>messages\<close>
  array (if there is one) is \<open>null\<close> or \<open>undefined\<close>.
\<close>

definition noNullEntries :: "jsval \<Rightarrow> bool" where
  "noNullEntries data =
     (case optProp data ''messages'' of
        JArr ms \<Rightarrow> list_all (\<lambda>m. \<not> nullish m) ms
      | _ \<Rightarrow> True)"

text \<open>A clock that advances by one millisecond at every reading.\<close>

definition tickingClock :: "int \<Rightarrow> clock" where
  "tickingClock t0 n = t0 + int n"

text \<open>The freshly mounted application after the user has typed a question.\<close>

definition exampleState :: app_state where
  "exampleState = setInput ''  How do I plan this? '' (fst (initialState (tickingClock 1000)))"

text \<open>The same application once the question has been sent, and is in flight.\<close>

definition inFlightState :: app_state where
  "inFlightState = fst (handleSend_sync exampleState exampleState (tickingClock 2000))"

text \<open>The application in flight after the user has typed again.\<close>

definition busyState :: app_state where
  "busyState = setInput ''again'' inFlightState"

text \<open>The Agent Status Map that a run ends with (none when the render failed).\<close>

definition settledStatus :: "js_error + (app_state \<times> clock) \<Rightarrow> (string, jsval) fmap option" where
  "settledStatus r =
     (case r of
        Inl e \<Rightarrow> None
      | Inr (st', c') \<Rightarrow> Some (agentStatus st'))"

definition serverError :: fetch_result where
  "serverError = Resolved \<lparr>status = 500, bodyText = Some [], bodyJson = None\<rparr>"

text \<open>A 200 response whose body is the JSON text \<open>0\<close>.\<close>

definition zeroBody :: http_response where
  "zeroBody = \<lparr>status = 200, bodyText = Some ''0'', bodyJson = Some (JNum 0)\<rparr>"

text \<open>
  An application in flight whose Agent Status Map knows a third agent, and a payload that
  reports the status of one agent only.
\<close>

definition statusExample :: app_state where
  "statusExample = busyState\<lparr>agentStatus := fmupd ''agent_x'' (JStr ''responding'') (agentStatus busyState)\<rparr>"

definition statusPayload :: jsval where
  "statusPayload = JObj (object [(''agentStatus'', JObj (object [(''agent_rag'', JStr ''idle'')]))])"

text \<open>The same status report next to a \<open>messages\<close> array whose only entry is \<open>null\<close>.\<close>

definition nullEntryPayload :: jsval where
  "nullEntryPayload =
     JObj (object [(''messages'', JArr [JNull]),
                   (''agentStatus'', JObj (object [(''agent_rag'', JStr ''idle'')]))])"


text \<open>
  A payload of three messages: one stamped 0, one stamped with a real time, one without
  timestamp and without agent.
\<close>

definition zeroStampEntries :: "jsval list" where
  "zeroStampEntries =
     [JObj (object [(''role'', JStr ''agent''), (''agentId'', JStr ''agent_rag''),
                    (''content'', JStr ''hi''), (''timestamp'', JNum 0)]),
      JObj (object [(''role'', JStr ''agent''), (''agentId'', JStr ''agent_planner''),
                    (''content'', JStr ''ho''), (''timestamp'', JNum 1700000000000)]),
      JObj (object [(''role'', JStr ''agent''), (''content'', JStr ''hum'')])]"

definition zeroStampPayload :: jsval where
  "zeroStampPayload = JObj (object [(''messages'', JArr zeroStampEntries)])"

section \<open>Basic facts\<close>

lemma fmlookup_object [simp]: "fmlookup (object kvs) k = map_of kvs k"
  by (simp add: object_def fmlookup_of_list)

lemma falsy_iff: "\<not> truthy v \<longleftrightarrow> v \<in> {JUndefined, JNull, JBool False, JNum 0, JStr []}"
  by (cases v) auto

text \<open>\<open>includes_str\<close> finds exactly the contiguous occurrences.\<close>

lemma includes_str_iff: "includes_str s sub \<longleftrightarrow> (\<exists>pre post. s = pre @ sub @ post)"
proof (induction s)
  case Nil
  then show ?case by auto
next
  case (Cons c s)
  show ?case
  proof
    assume "includes_str (c # s) sub"
    then consider "prefix sub (c # s)" | "includes_str s sub" by auto
    then show "\<exists>pre post. c # s = pre @ sub @ post"
    proof cases
      case 1
      then obtain post where "c # s = sub @ post" by (auto simp: prefix_def)
      then have "c # s = [] @ sub @ post" by simp
      then show ?thesis by blast
    next
      case 2
      with Cons.IH obtain pre post where "s = pre @ sub @ post" by blast
      then have "c # s = (c # pre) @ sub @ post" by simp
      then show ?thesis by blast
    qed
  next
    assume "\<exists>pre post. c # s = pre @ sub @ post"
    then obtain pre post where eq: "c # s = pre @ sub @ post" by blast
    show "includes_str (c # s) sub"
    proof (cases pre)
      case Nil
      with eq have "prefix sub (c # s)" by (simp add: prefix_def)
      then show ?thesis by simp
    next
      case (Cons p pre')
      with eq have "s = pre' @ sub @ post" by simp
      with Cons.IH have "includes_str s sub" by blast
      then show ?thesis by simp
    qed
  qed
qed

text \<open>
  Decimal rendering is injective and produces digits only, so the index that ends a
  generated id can be read back from the id.
\<close>

lemma digit_inj: "a < 10 \<Longrightarrow> b < 10 \<Longrightarrow> digit a = digit b \<Longrightarrow> a = b"
proof -
  assume a: "a < 10" and b: "b < 10" and eq: "digit a = digit b"
  have d: "distinct ''0123456789''" by simp
  have l: "length ''0123456789'' = 10" by simp
  from eq have "''0123456789'' ! a = ''0123456789'' ! b" by (simp add: digit_def)
  with d a b l show "a = b" by (simp only: nth_eq_iff_index_eq)
qed

lemma digit_in: "d < 10 \<Longrightarrow> digit d \<in> set ''0123456789''"
  unfolding digit_def by (rule nth_mem) simp

lemma show_nat_digits: "set (show_nat n) \<subseteq> set ''0123456789''"
proof (induction n rule: show_nat.induct)
  case (1 n)
  show ?case
  proof (cases "n < 10")
    case True
    then show ?thesis using digit_in [of n] by (subst show_nat.simps) simp
  next
    case False
    with "1.IH" digit_in [of "n mod 10"] show ?thesis
      by (subst show_nat.simps) simp
  qed
qed

lemma show_nat_nonempty: "show_nat n \<noteq> []"
  by (subst show_nat.simps) simp

lemma show_nat_inj: "show_nat n = show_nat m \<Longrightarrow> n = m"
proof (induction n arbitrary: m rule: show_nat.induct)
  case (1 n)
  show ?case
  proof (cases "n < 10")
    case n: True
    show ?thesis
    proof (cases "m < 10")
      case True
      with n "1.prems" have "digit n = digit m"
        by (simp add: show_nat.simps [of n] show_nat.simps [of m])
      with n True show ?thesis by (rule digit_inj)
    next
      case False
      with n "1.prems" have "[digit n] = show_nat (m div 10) @ [digit (m mod 10)]"
        by (simp add: show_nat.simps [of n] show_nat.simps [of m])
      then have "show_nat (m div 10) = []" by simp
      with show_nat_nonempty show ?thesis by blast
    qed
  next
    case n: False
    show ?thesis
    proof (cases "m < 10")
      case True
      with n "1.prems" have "show_nat (n div 10) @ [digit (n mod 10)] = [digit m]"
        by (simp add: show_nat.simps [of n] show_nat.simps [of m])
      then have "show_nat (n div 10) = []" by simp
      with show_nat_nonempty show ?thesis by blast
    next
      case False
      with n "1.prems"
      have "show_nat (n div 10) @ [digit (n mod 10)] = show_nat (m div 10) @ [digit (m mod 10)]"
        by (simp add: show_nat.simps [of n] show_nat.simps [of m])
      then have a: "show_nat (n div 10) = show_nat (m div 10)"
        and b: "digit (n mod 10) = digit (m mod 10)" by simp_all
      from "1.IH" [OF n a] have "n div 10 = m div 10" .
      moreover from b have "n mod 10 = m mod 10" by (intro digit_inj) simp_all
      ultimately show ?thesis by (metis div_mult_mod_eq)
    qed
  qed
qed

lemma after_last_separator:
  assumes "u \<notin> set d1" and "u \<notin> set d2" and "a @ u # d1 = b @ u # d2"
  shows "d1 = d2"
proof -
  have "takeWhile (\<lambda>x. x \<noteq> u) (rev (a @ u # d)) = rev d" if "u \<notin> set d" for a d
  proof -
    have "rev (a @ u # d) = rev d @ u # rev a" by simp
    moreover from that have "takeWhile (\<lambda>x. x \<noteq> u) (rev d @ u # rev a) = rev d"
      by (subst takeWhile_append2) auto
    ultimately show ?thesis by simp
  qed
  from this [OF assms(1), of a] this [OF assms(2), of b] assms(3)
  have "rev d1 = rev d2" by simp
  then show ?thesis by simp
qed

lemma agent_id_index:
  assumes "''a_'' @ show_int t @ ''_'' @ show_nat i = ''a_'' @ show_int t' @ ''_'' @ show_nat j"
  shows "i = j"
proof -
  have u: "CHR ''_'' \<notin> set (show_nat n)" for n
    using show_nat_digits [of n] by auto
  from assms have "(''a_'' @ show_int t) @ CHR ''_'' # show_nat i = (''a_'' @ show_int t') @ CHR ''_'' # show_nat j"
    by simp
  from after_last_separator [OF u u this] show ?thesis by (rule show_nat_inj)
qed

section \<open>The Response Simulator: properties\<close>

lemma simulate_messages:
  "optProp (simulateAgentResponse text) ''messages'' =
     JArr [JObj (object [(''role'', JStr ''agent''), (''agentId'', JStr ''agent_rag''),
                         (''content'', JStr (ragReply @ '' '' @ [CHR 0x22] @ slice0 text 60 @ [CHR 0x22]))]),
           JObj (object [(''role'', JStr ''agent''), (''agentId'', JStr ''agent_planner''),
                         (''content'', JStr (plannerReply text))])]"
  by (simp add: simulateAgentResponse_def optProp_def)

text \<open>
  C5. The second message of the simulator's output is the planner's. For every input
  text its content is the step-by-step template, which contains \<open>Analyze\<close>, if the
  lower-cased text contains \<open>plan\<close> or \<open>how\<close>, and the generic coordination template,
  which does not contain \<open>Analyze\<close>, otherwise.
\<close>

theorem simulate_planner_by_keyword:
  "optProp (messageAt (simulateAgentResponse text) 1) ''agentId'' = JStr ''agent_planner'' \<and>
   optProp (messageAt (simulateAgentResponse text) 1) ''content'' =
     JStr (if includes_str (toLowerCase text) ''plan'' \<or> includes_str (toLowerCase text) ''how''
           then planTemplate else genericTemplate) \<and>
   includes_str planTemplate ''Analyze'' \<and> \<not> includes_str genericTemplate ''Analyze''"
proof -
  have "messageAt (simulateAgentResponse text) 1 =
          JObj (object [(''role'', JStr ''agent''), (''agentId'', JStr ''agent_planner''),
                        (''content'', JStr (plannerReply text))])"
    by (simp add: messageAt_def simulate_messages)
  moreover have "includes_str planTemplate ''Analyze''"
    by (simp add: planTemplate_def)
  moreover have "\<not> includes_str genericTemplate ''Analyze''"
    by (simp add: genericTemplate_def)
  ultimately show ?thesis
    by (simp add: optProp_def plannerReply_def helpful_def)
qed

text \<open>The two inputs that C5 names: \<open>How do I plan this?\<close> and \<open>hello\<close>.\<close>

theorem simulate_planner_by_keyword_witness:
  "optProp (messageAt (simulateAgentResponse ''How do I plan this?'') 1) ''content'' = JStr planTemplate \<and>
   optProp (messageAt (simulateAgentResponse ''hello'') 1) ''content'' = JStr genericTemplate"
  using simulate_planner_by_keyword [of "''How do I plan this?''"]
        simulate_planner_by_keyword [of "''hello''"]
  by (simp add: toLowerCase_def lowerChar_def)

text \<open>
  C6. The first message of the simulator's output is tagged \<open>agent_rag\<close>, and for every
  input text its content is the fixed reply followed by the first 60 characters of the
  text between double quotes; in particular it contains these characters verbatim.
\<close>

theorem simulate_research_echoes_input:
  "optProp (messageAt (simulateAgentResponse text) 0) ''agentId'' = JStr ''agent_rag'' \<and>
   (\<exists>ct. optProp (messageAt (simulateAgentResponse text) 0) ''content'' = JStr ct \<and>
         ct = ragReply @ '' '' @ [CHR 0x22] @ take 60 text @ [CHR 0x22] \<and>
         includes_str ct (take 60 text))"
proof -
  have m: "messageAt (simulateAgentResponse text) 0 =
          JObj (object [(''role'', JStr ''agent''), (''agentId'', JStr ''agent_rag''),
                        (''content'', JStr (ragReply @ '' '' @ [CHR 0x22] @ slice0 text 60 @ [CHR 0x22]))])"
    by (simp add: messageAt_def simulate_messages)
  have "ragReply @ '' '' @ [CHR 0x22] @ take 60 text @ [CHR 0x22] =
          (ragReply @ '' '' @ [CHR 0x22]) @ take 60 text @ [CHR 0x22]"
    by simp
  then have "includes_str (ragReply @ '' '' @ [CHR 0x22] @ take 60 text @ [CHR 0x22]) (take 60 text)"
    unfolding includes_str_iff by blast
  with m show ?thesis
    by (simp add: optProp_def slice0_def)
qed

theorem simulate_research_echoes_input_witness:
  "optProp (messageAt (simulateAgentResponse ''hello'') 0) ''content'' =
     JStr (ragReply @ '' '' @ [CHR 0x22] @ ''hello'' @ [CHR 0x22])"
  using simulate_research_echoes_input [of "''hello''"]
  by simp

section \<open>The Backend Client: properties\<close>

lemma sendMessage_fails_iff:
  "(\<exists>e. sendMessageToBackend text fr = Inl e) \<longleftrightarrow>
   (fr = Rejected \<or> (\<exists>res. fr = Resolved res \<and> \<not> ok res))"
  by (cases fr) (auto simp: sendMessageToBackend_def sendMessage_try_def Let_def split: option.splits)

text \<open>
  C7. \<open>fetchAgentStatus\<close> always returns a value and never an error; when the request is
  rejected, the status is not a success, or the body cannot be parsed, the value is the
  object whose only property, \<open>agentStatus\<close>, is the local Agent Status Map that the
  closure holds.
\<close>

theorem fetchAgentStatus_never_throws:
  "(\<exists>data. fetchAgentStatus current fr = Inr data) \<and>
   (fr = Rejected \<or> (\<exists>res. fr = Resolved res \<and> (\<not> ok res \<or> bodyJson res = None))
      \<longrightarrow> fetchAgentStatus current fr =
            Inr (JObj (fmupd ''agentStatus'' (JObj current) fmempty)))"
  by (cases fr)
     (auto simp: fetchAgentStatus_def fetchStatus_try_def jsonOrNull_def object_def Let_def
        split: sum.splits)

theorem fetchAgentStatus_never_throws_witness:
  "fetchAgentStatus (agentStatus exampleState) serverError =
     Inr (JObj (fmupd ''agentStatus''
            (JObj (fmupd ''agent_rag'' (JStr ''idle'') (fmupd ''agent_planner'' (JStr ''idle'') fmempty)))
            fmempty)) \<and>
   fetchAgentStatus (agentStatus exampleState) Rejected =
     Inr (JObj (fmupd ''agentStatus''
            (JObj (fmupd ''agent_rag'' (JStr ''idle'') (fmupd ''agent_planner'' (JStr ''idle'') fmempty)))
            fmempty))"
proof -
  have a: "agentStatus exampleState =
             fmupd ''agent_rag'' (JStr ''idle'') (fmupd ''agent_planner'' (JStr ''idle'') fmempty)"
    by (simp add: exampleState_def setInput_def initialState_def Date_now_def object_def)
  from fetchAgentStatus_never_throws [of "agentStatus exampleState" serverError]
       fetchAgentStatus_never_throws [of "agentStatus exampleState" Rejected]
  show ?thesis
    unfolding a by (simp add: serverError_def ok_def)
qed

text \<open>
  C8 as stated, with the simulator used exactly when parsing yields nothing, fails: the
  body \<open>0\<close> of a 200 response parses to the number 0, and \<open>sendMessageToBackend\<close> returns
  the simulator's output, not the parsed 0.
\<close>

theorem sendMessage_fallback_counterexample:
  "ok zeroBody \<and> bodyJson zeroBody = Some (JNum 0) \<and>
   sendMessageToBackend ''hello'' (Resolved zeroBody) = Inr (simulateAgentResponse ''hello'') \<and>
   sendMessageToBackend ''hello'' (Resolved zeroBody) \<noteq> Inr (JNum 0)"
  by (simp add: zeroBody_def ok_def sendMessageToBackend_def sendMessage_try_def jsonOrNull_def
        simulateAgentResponse_def)

text \<open>
  C8, amended. On a 2xx response \<open>sendMessageToBackend\<close> returns the simulator's output
  for the same text exactly when \<open>res.json()\<close> rejects or yields a falsy value (\<open>null\<close>,
  \<open>false\<close>, \<open>0\<close>, the empty string), and the parsed payload otherwise.
\<close>

theorem sendMessage_fallback_on_falsy:
  assumes "ok res"
  shows "sendMessageToBackend text (Resolved res) =
           Inr (case bodyJson res of
                  None \<Rightarrow> simulateAgentResponse text
                | Some v \<Rightarrow>
                    if v \<in> {JUndefined, JNull, JBool False, JNum 0, JStr []}
                    then simulateAgentResponse text else v)"
proof (cases "bodyJson res")
  case None
  with assms show ?thesis
    by (simp add: sendMessageToBackend_def sendMessage_try_def jsonOrNull_def)
next
  case (Some v)
  with assms falsy_iff [of v] show ?thesis
    by (simp add: sendMessageToBackend_def sendMessage_try_def jsonOrNull_def)
qed

theorem sendMessage_fallback_on_falsy_witness:
  "ok zeroBody \<and>
   sendMessageToBackend ''hello'' (Resolved zeroBody) = Inr (simulateAgentResponse ''hello'') \<and>
   ok (zeroBody\<lparr>bodyJson := Some (JNum 7)\<rparr>) \<and>
   sendMessageToBackend ''hello'' (Resolved (zeroBody\<lparr>bodyJson := Some (JNum 7)\<rparr>)) = Inr (JNum 7)"
proof -
  have h1: "ok zeroBody" by (simp add: zeroBody_def ok_def)
  have h2: "ok (zeroBody\<lparr>bodyJson := Some (JNum 7)\<rparr>)" by (simp add: zeroBody_def ok_def)
  show ?thesis
    using h1 h2 sendMessage_fallback_on_falsy [OF h1, of "''hello''"]
      sendMessage_fallback_on_falsy [OF h2, of "''hello''"]
    by (simp add: zeroBody_def)
qed

section \<open>The Send Controller: properties\<close>

lemma sync_idle:
  assumes "trim (input ren) \<noteq> []" and "\<not> isSending ren"
  shows "handleSend_sync ren st c =
     (st\<lparr>messages := messages st @
            [\<lparr>msgId = ''u_'' @ show_int (c 0), role = JStr ''user'', agentId = JUndefined,
              content = JStr (trim (input ren)), timestamp = JNum (c 1), error = JUndefined\<rparr>],
         input := [], isSending := True,
         agentStatus := fmupd ''agent_planner'' (JStr ''idle'')
                          (fmupd ''agent_rag'' (JStr ''thinking'') (agentStatus st))\<rparr>,
      Some (trim (input ren)), \<lambda>n. c (Suc (Suc n)))"
  using assms by (simp add: handleSend_sync_def Date_now_def setProp_def spread_def)

lemma settle_failure:
  "handleSend_settle st c (Inl e) =
     Inr (st\<lparr>messages := messages st @
              [\<lparr>msgId = ''err_'' @ show_int (c 0), role = JStr ''system'', agentId = JUndefined,
                content = JStr errorText, timestamp = JNum (c 1), error = JBool True\<rparr>],
            agentStatus := object [(''agent_rag'', JStr ''error''), (''agent_planner'', JStr ''idle'')],
            isSending := False\<rparr>,
          \<lambda>n. c (Suc (Suc n)))"
  by (simp add: handleSend_settle_def Date_now_def)

lemma settle_keeps_store:
  assumes "handleSend_settle st c r = Inr (st', c')"
  shows "prefix (messages st) (messages st') \<and> input st' = input st"
proof (cases r)
  case (Inl e)
  with assms show ?thesis by (auto simp: settle_failure)
next
  case (Inr data)
  with assms show ?thesis
    by (auto simp: handleSend_settle_def Let_def split: sum.splits if_splits)
qed

lemma getProp_optProp: "\<not> nullish m \<Longrightarrow> getProp m k = Inr (optProp m k)"
  by (cases m) (simp_all add: optProp_def)

lemma toChatMessage_ok:
  assumes "\<not> nullish m"
  shows "toChatMessage c m idx =
           Inr (\<lparr>msgId = ''a_'' @ show_int (c 0) @ ''_'' @ show_nat idx,
                 role = optProp m ''role'', agentId = optProp m ''agentId'',
                 content = optProp m ''content'',
                 timestamp = (if truthy (optProp m ''timestamp'') then optProp m ''timestamp''
                              else JNum (c 1)),
                 error = JUndefined\<rparr>,
                \<lambda>n. c (n + (if truthy (optProp m ''timestamp'') then 1 else 2)))"
  using assms by (simp add: toChatMessage_def Date_now_def getProp_optProp)

lemma mapMessages_ok:
  assumes "list_all (\<lambda>m. \<not> nullish m) ms"
  shows "\<exists>new k. mapMessages c ms idx = Inr (new, \<lambda>n. c (n + k)) \<and> length new = length ms"
  using assms
proof (induction ms arbitrary: c idx)
  case Nil
  show ?case
    by (intro exI [of _ "[]"] exI [of _ 0]) simp
next
  case (Cons m ms)
  let ?k = "if truthy (optProp m ''timestamp'') then 1 else 2 :: nat"
  from Cons.prems have m: "\<not> nullish m" and rest: "list_all (\<lambda>m. \<not> nullish m) ms" by simp_all
  from Cons.IH [OF rest, of "\<lambda>n. c (n + ?k)" "Suc idx"]
  obtain new k where new: "mapMessages (\<lambda>n. c (n + ?k)) ms (Suc idx) = Inr (new, \<lambda>n. c (n + k + ?k))"
    and len: "length new = length ms" by auto
  have "(\<lambda>n. c (n + k + ?k)) = (\<lambda>n. c (n + (k + ?k)))" by (simp add: add.assoc)
  with new len toChatMessage_ok [OF m, of c idx] show ?case
    by (intro exI [of _ "_ # new"] exI [of _ "k + ?k"]) simp
qed

lemma newMessages_ok:
  assumes "noNullEntries data"
  shows "\<exists>new c1. newMessages c data = Inr (new, c1)"
proof (cases "optProp data ''messages''")
  case (JArr ms)
  with assms have "list_all (\<lambda>m. \<not> nullish m) ms" by (simp add: noNullEntries_def)
  from mapMessages_ok [OF this, of c 0] JArr show ?thesis
    by (auto simp: newMessages_def)
qed (simp_all add: newMessages_def)

lemma settle_merge:
  assumes "newMessages c data = Inr (new, c1)" and "optProp data ''agentStatus'' = JObj kvs"
  shows "handleSend_settle st c (Inr data) =
           Inr (st\<lparr>messages := messages st @ new, agentStatus := fmadd (agentStatus st) kvs,
                  isSending := False\<rparr>, c1)"
  using assms by (simp add: handleSend_settle_def spread_def)


lemma mapMessages_entries:
  assumes "list_all (\<lambda>m. \<not> nullish m) ms"
  shows "\<exists>new k. mapMessages c ms idx = Inr (new, \<lambda>n. c (n + k)) \<and> length new = length ms \<and>
           (\<forall>i<length ms.
              (\<exists>n. msgId (new ! i) = ''a_'' @ show_int (c n) @ ''_'' @ show_nat (idx + i)) \<and>
              role (new ! i) = optProp (ms ! i) ''role'' \<and>
              agentId (new ! i) = optProp (ms ! i) ''agentId'' \<and>
              content (new ! i) = optProp (ms ! i) ''content'' \<and>
              (truthy (optProp (ms ! i) ''timestamp'') \<longrightarrow>
                 timestamp (new ! i) = optProp (ms ! i) ''timestamp'') \<and>
              (\<not> truthy (optProp (ms ! i) ''timestamp'') \<longrightarrow>
                 (\<exists>n. timestamp (new ! i) = JNum (c n))))"
  using assms
proof (induction ms arbitrary: c idx)
  case Nil
  show ?case
    by (intro exI [of _ "[]"] exI [of _ 0]) simp
next
  case (Cons m ms)
  let ?k = "if truthy (optProp m ''timestamp'') then 1 else 2 :: nat"
  let ?c1 = "\<lambda>n. c (n + ?k)"
  let ?x = "\<lparr>msgId = ''a_'' @ show_int (c 0) @ ''_'' @ show_nat idx,
             role = optProp m ''role'', agentId = optProp m ''agentId'',
             content = optProp m ''content'',
             timestamp = (if truthy (optProp m ''timestamp'') then optProp m ''timestamp''
                          else JNum (c 1)),
             error = JUndefined\<rparr>"
  from Cons.prems have m: "\<not> nullish m" and rest: "list_all (\<lambda>m. \<not> nullish m) ms" by simp_all
  have hd: "toChatMessage c m idx = Inr (?x, ?c1)"
    by (rule toChatMessage_ok [OF m])
  from Cons.IH [OF rest, of ?c1 "Suc idx"]
  obtain new k where new: "mapMessages ?c1 ms (Suc idx) = Inr (new, \<lambda>n. ?c1 (n + k))"
    and len: "length new = length ms"
    and ent: "\<forall>i<length ms.
              (\<exists>n. msgId (new ! i) = ''a_'' @ show_int (?c1 n) @ ''_'' @ show_nat (Suc idx + i)) \<and>
              role (new ! i) = optProp (ms ! i) ''role'' \<and>
              agentId (new ! i) = optProp (ms ! i) ''agentId'' \<and>
              content (new ! i) = optProp (ms ! i) ''content'' \<and>
              (truthy (optProp (ms ! i) ''timestamp'') \<longrightarrow>
                 timestamp (new ! i) = optProp (ms ! i) ''timestamp'') \<and>
              (\<not> truthy (optProp (ms ! i) ''timestamp'') \<longrightarrow>
                 (\<exists>n. timestamp (new ! i) = JNum (?c1 n)))"
    by (elim exE conjE)
  have shift: "(\<lambda>n. ?c1 (n + k)) = (\<lambda>n. c (n + (k + ?k)))" by (simp add: add.assoc)
  have run: "mapMessages c (m # ms) idx = Inr (?x # new, \<lambda>n. c (n + (k + ?k)))"
    using hd new shift by simp
  have each: "\<forall>i<length (m # ms).
              (\<exists>n. msgId ((?x # new) ! i) = ''a_'' @ show_int (c n) @ ''_'' @ show_nat (idx + i)) \<and>
              role ((?x # new) ! i) = optProp ((m # ms) ! i) ''role'' \<and>
              agentId ((?x # new) ! i) = optProp ((m # ms) ! i) ''agentId'' \<and>
              content ((?x # new) ! i) = optProp ((m # ms) ! i) ''content'' \<and>
              (truthy (optProp ((m # ms) ! i) ''timestamp'') \<longrightarrow>
                 timestamp ((?x # new) ! i) = optProp ((m # ms) ! i) ''timestamp'') \<and>
              (\<not> truthy (optProp ((m # ms) ! i) ''timestamp'') \<longrightarrow>
                 (\<exists>n. timestamp ((?x # new) ! i) = JNum (c n)))"
  proof (intro allI impI)
    fix i
    assume that: "i < length (m # ms)"
    show "(\<exists>n. msgId ((?x # new) ! i) = ''a_'' @ show_int (c n) @ ''_'' @ show_nat (idx + i)) \<and>
              role ((?x # new) ! i) = optProp ((m # ms) ! i) ''role'' \<and>
              agentId ((?x # new) ! i) = optProp ((m # ms) ! i) ''agentId'' \<and>
              content ((?x # new) ! i) = optProp ((m # ms) ! i) ''content'' \<and>
              (truthy (optProp ((m # ms) ! i) ''timestamp'') \<longrightarrow>
                 timestamp ((?x # new) ! i) = optProp ((m # ms) ! i) ''timestamp'') \<and>
              (\<not> truthy (optProp ((m # ms) ! i) ''timestamp'') \<longrightarrow>
                 (\<exists>n. timestamp ((?x # new) ! i) = JNum (c n)))"
    proof (cases i)
    case 0
    have "\<exists>n. ''a_'' @ show_int (c 0) @ ''_'' @ show_nat idx = ''a_'' @ show_int (c n) @ ''_'' @ show_nat idx"
      by (rule exI [of _ 0]) simp
    moreover have "\<exists>n. JNum (c 1) = JNum (c n)" by (rule exI [of _ 1]) simp
    ultimately show ?thesis using 0 by simp
  next
    case (Suc j)
    with that have j: "j < length ms" by simp
    from ent [rule_format, OF j] obtain n
      where id: "msgId (new ! j) = ''a_'' @ show_int (?c1 n) @ ''_'' @ show_nat (Suc idx + j)"
        and r: "role (new ! j) = optProp (ms ! j) ''role''"
        and a: "agentId (new ! j) = optProp (ms ! j) ''agentId''"
        and ct: "content (new ! j) = optProp (ms ! j) ''content''"
        and t1: "truthy (optProp (ms ! j) ''timestamp'') \<longrightarrow>
                 timestamp (new ! j) = optProp (ms ! j) ''timestamp''"
        and t2: "\<not> truthy (optProp (ms ! j) ''timestamp'') \<longrightarrow>
                 (\<exists>n. timestamp (new ! j) = JNum (?c1 n))"
      by (elim exE conjE)
    from id have "\<exists>n'. msgId (new ! j) = ''a_'' @ show_int (c n') @ ''_'' @ show_nat (idx + Suc j)"
      by (intro exI [of _ "n + ?k"]) simp
    moreover from t2 have "\<not> truthy (optProp (ms ! j) ''timestamp'') \<longrightarrow>
                 (\<exists>n. timestamp (new ! j) = JNum (c n))"
      by blast
    ultimately show ?thesis using Suc r a ct t1 by simp
    qed
  qed
  from len have len': "length (?x # new) = length (m # ms)" by simp
  from run len' each show ?case
    by (intro exI [of _ "?x # new"] exI [of _ "k + ?k"] conjI)
qed

lemma settle_appends:
  assumes "newMessages c data = Inr (new, c1)"
  shows "\<exists>st'. handleSend_settle st c (Inr data) = Inr (st', c1) \<and> messages st' = messages st @ new"
  using assms by (simp add: handleSend_settle_def Let_def)

lemma exampleState_idle:
  "trim (input exampleState) = ''How do I plan this?''" "\<not> isSending exampleState"
  by (simp_all add: exampleState_def setInput_def trim_def isWhiteSpace_def initialState_def
        Date_now_def)

lemma exampleState_failed_run:
  "\<exists>st2 c2. handleSend exampleState exampleState (tickingClock 2000) serverError = Inr (st2, c2)"
proof -
  have t: "trim (input exampleState) \<noteq> []" by (simp add: exampleState_idle)
  have "sendMessageToBackend (trim (input exampleState)) serverError = Inl (BackendError ''Backend error: 500'')"
    by (simp add: sendMessageToBackend_def sendMessage_try_def serverError_def ok_def
          show_nat.simps digit_def)
  then show ?thesis
    by (simp add: handleSend_def sync_idle [OF t exampleState_idle(2)] settle_failure)
qed

lemma inFlightState_facts:
  "isSending inFlightState"
  "input inFlightState = []"
  "length (messages inFlightState) = 3"
  "fmlookup (agentStatus inFlightState) ''agent_rag'' = Some (JStr ''thinking'')"
  "fmlookup (agentStatus inFlightState) ''agent_planner'' = Some (JStr ''idle'')"
proof -
  have t: "trim (input exampleState) \<noteq> []" by (simp add: exampleState_idle)
  note s = sync_idle [OF t exampleState_idle(2), of exampleState "tickingClock 2000"]
  show "isSending inFlightState" "input inFlightState = []"
    "fmlookup (agentStatus inFlightState) ''agent_rag'' = Some (JStr ''thinking'')"
    "fmlookup (agentStatus inFlightState) ''agent_planner'' = Some (JStr ''idle'')"
    by (simp_all add: inFlightState_def s)
  show "length (messages inFlightState) = 3"
    by (simp add: inFlightState_def s) (simp add: exampleState_def setInput_def initialState_def Date_now_def)
qed

text \<open>
  C1. For every input whose trimmed text is not empty, submitted while no send is in
  flight, the part of \<open>handleSend\<close> that runs before the backend is awaited appends
  exactly one message, of role \<open>user\<close> and with the trimmed text as content, clears the
  input buffer and hands the trimmed text to the backend client. Whatever the network
  then does, the store of a completed run starts with the old messages followed by that
  user message. (The input and the in-flight flag are those that the closure reads; the
  store is the one the call finds.)
\<close>

theorem handleSend_appends_user_message:
  assumes "trim (input ren) \<noteq> []" and "\<not> isSending ren"
  shows "\<exists>st1 c1 um.
           handleSend_sync ren st c = (st1, Some (trim (input ren)), c1) \<and>
           messages st1 = messages st @ [um] \<and>
           role um = JStr ''user'' \<and> content um = JStr (trim (input ren)) \<and>
           input st1 = [] \<and> isSending st1 \<and>
           (\<forall>fr st2 c2. handleSend ren st c fr = Inr (st2, c2) \<longrightarrow>
              prefix (messages st @ [um]) (messages st2) \<and> input st2 = [])"
proof -
  let ?um = "\<lparr>msgId = ''u_'' @ show_int (c 0), role = JStr ''user'', agentId = JUndefined,
              content = JStr (trim (input ren)), timestamp = JNum (c 1), error = JUndefined\<rparr>"
  obtain st1 c1 where sync: "handleSend_sync ren st c = (st1, Some (trim (input ren)), c1)"
    and msgs: "messages st1 = messages st @ [?um]" and inp: "input st1 = []"
    and busy: "isSending st1"
    using sync_idle [OF assms, of st c] by simp
  have "prefix (messages st @ [?um]) (messages st2) \<and> input st2 = []"
    if "handleSend ren st c fr = Inr (st2, c2)" for fr st2 c2
  proof -
    from that sync have "handleSend_settle st1 c1 (sendMessageToBackend (trim (input ren)) fr) = Inr (st2, c2)"
      by (simp add: handleSend_def)
    from settle_keeps_store [OF this] msgs inp show ?thesis by simp
  qed
  with sync msgs inp busy show ?thesis by force
qed

theorem handleSend_appends_user_message_witness:
  "trim (input exampleState) = ''How do I plan this?'' \<and> \<not> isSending exampleState \<and>
   (\<exists>st1 c1 um.
      handleSend_sync exampleState exampleState (tickingClock 2000) =
        (st1, Some ''How do I plan this?'', c1) \<and>
      messages st1 = messages exampleState @ [um] \<and>
      role um = JStr ''user'' \<and> content um = JStr ''How do I plan this?'' \<and> input st1 = [] \<and>
      (\<exists>st2 c2. handleSend exampleState exampleState (tickingClock 2000) serverError = Inr (st2, c2) \<and>
         prefix (messages exampleState @ [um]) (messages st2)))"
proof -
  have h1: "trim (input exampleState) \<noteq> []" by (simp add: exampleState_idle)
  have h2: "\<not> isSending exampleState" by (rule exampleState_idle)
  from handleSend_appends_user_message [OF h1 h2, of exampleState "tickingClock 2000"]
  obtain st1 c1 um
    where 1: "handleSend_sync exampleState exampleState (tickingClock 2000) =
                (st1, Some (trim (input exampleState)), c1)"
      and 2: "messages st1 = messages exampleState @ [um]"
      and 3: "role um = JStr ''user''" and 4: "content um = JStr (trim (input exampleState))"
      and 5: "input st1 = []"
      and 6: "\<forall>fr st2 c2. handleSend exampleState exampleState (tickingClock 2000) fr = Inr (st2, c2) \<longrightarrow>
              prefix (messages exampleState @ [um]) (messages st2) \<and> input st2 = []"
    by (elim exE conjE)
  from exampleState_failed_run obtain st2 c2
    where run: "handleSend exampleState exampleState (tickingClock 2000) serverError = Inr (st2, c2)"
    by blast
  with 6 have "prefix (messages exampleState @ [um]) (messages st2)" by blast
  with run have 7: "\<exists>st2 c2. handleSend exampleState exampleState (tickingClock 2000) serverError = Inr (st2, c2) \<and>
         prefix (messages exampleState @ [um]) (messages st2)"
    by (intro exI conjI)
  have "\<exists>st1 c1 um.
      handleSend_sync exampleState exampleState (tickingClock 2000) =
        (st1, Some ''How do I plan this?'', c1) \<and>
      messages st1 = messages exampleState @ [um] \<and>
      role um = JStr ''user'' \<and> content um = JStr ''How do I plan this?'' \<and> input st1 = [] \<and>
      (\<exists>st2 c2. handleSend exampleState exampleState (tickingClock 2000) serverError = Inr (st2, c2) \<and>
         prefix (messages exampleState @ [um]) (messages st2))"
  proof (rule exI [of _ st1], rule exI [of _ c1], rule exI [of _ um])
    from 1 2 3 4 5 7
    show "handleSend_sync exampleState exampleState (tickingClock 2000) =
        (st1, Some ''How do I plan this?'', c1) \<and>
      messages st1 = messages exampleState @ [um] \<and>
      role um = JStr ''user'' \<and> content um = JStr ''How do I plan this?'' \<and> input st1 = [] \<and>
      (\<exists>st2 c2. handleSend exampleState exampleState (tickingClock 2000) serverError = Inr (st2, c2) \<and>
         prefix (messages exampleState @ [um]) (messages st2))"
      unfolding exampleState_idle(1) by (intro conjI)
  qed
  with exampleState_idle show ?thesis by (intro conjI)
qed




text \<open>
  C3. Whenever \<open>sendMessageToBackend\<close> fails, what \<open>handleSend\<close> does when the failure
  arrives appends exactly one message: of role \<open>system\<close>, with \<open>error: true\<close> and the
  fixed error text. Afterwards \<open>agent_rag\<close> is \<open>error\<close>, \<open>agent_planner\<close> is \<open>idle\<close>, no
  entry of the Agent Status Map is \<open>thinking\<close> or \<open>responding\<close>, and the in-flight flag is
  cleared. By \<open>sendMessage_fails_iff\<close> the failures are the rejected fetch and the
  response with a status outside 200..299.
\<close>

theorem handleSend_failure_reports_error:
  assumes "sendMessageToBackend text fr = Inl e"
  shows "\<exists>st' c' em.
           handleSend_settle st c (sendMessageToBackend text fr) = Inr (st', c') \<and>
           messages st' = messages st @ [em] \<and>
           role em = JStr ''system'' \<and> error em = JBool True \<and> content em = JStr errorText \<and>
           fmlookup (agentStatus st') ''agent_rag'' = Some (JStr ''error'') \<and>
           fmlookup (agentStatus st') ''agent_planner'' = Some (JStr ''idle'') \<and>
           (\<forall>k. fmlookup (agentStatus st') k \<noteq> Some (JStr ''thinking'') \<and>
                fmlookup (agentStatus st') k \<noteq> Some (JStr ''responding'')) \<and>
           \<not> isSending st'"
proof -
  let ?em = "\<lparr>msgId = ''err_'' @ show_int (c 0), role = JStr ''system'', agentId = JUndefined,
              content = JStr errorText, timestamp = JNum (c 1), error = JBool True\<rparr>"
  let ?st' = "st\<lparr>messages := messages st @ [?em],
                agentStatus := object [(''agent_rag'', JStr ''error''), (''agent_planner'', JStr ''idle'')],
                isSending := False\<rparr>"
  have "handleSend_settle st c (sendMessageToBackend text fr) = Inr (?st', \<lambda>n. c (Suc (Suc n)))"
    unfolding assms by (rule settle_failure)
  then show ?thesis
    by (intro exI [of _ ?st'] exI [of _ "\<lambda>n. c (Suc (Suc n))"] exI [of _ ?em]) simp
qed

theorem handleSend_failure_reports_error_witness:
  "sendMessageToBackend ''again'' serverError = Inl (BackendError ''Backend error: 500'') \<and>
   (\<exists>st' c' em.
      handleSend_settle busyState (tickingClock 3000) (sendMessageToBackend ''again'' serverError) = Inr (st', c') \<and>
      messages st' = messages busyState @ [em] \<and>
      role em = JStr ''system'' \<and> error em = JBool True \<and>
      fmlookup (agentStatus st') ''agent_rag'' = Some (JStr ''error'') \<and>
      fmlookup (agentStatus st') ''agent_planner'' = Some (JStr ''idle''))"
proof -
  have h: "sendMessageToBackend ''again'' serverError = Inl (BackendError ''Backend error: 500'')"
    by (simp add: sendMessageToBackend_def sendMessage_try_def serverError_def ok_def
          show_nat.simps digit_def)
  from handleSend_failure_reports_error [OF h, of busyState "tickingClock 3000"] h
  show ?thesis by auto
qed


lemma statusPayload_ok:
  "optProp statusPayload ''agentStatus'' = JObj (object [(''agent_rag'', JStr ''idle'')])"
  "noNullEntries statusPayload"
  by (simp_all add: statusPayload_def noNullEntries_def optProp_def)





text \<open>
  C4 as stated, for every payload that contains an \<open>agentStatus\<close> map, fails: when an
  entry of the \<open>messages\<close> array of the same payload is \<open>null\<close>, the \<open>map\<close> callback throws,
  the render fails and no merged map results.
\<close>

theorem handleSend_merge_null_entry_counterexample:
  "optProp nullEntryPayload ''agentStatus'' = JObj (object [(''agent_rag'', JStr ''idle'')]) \<and>
   handleSend_settle statusExample (tickingClock 3000) (Inr nullEntryPayload) = Inl TypeError \<and>
   settledStatus (handleSend_settle statusExample (tickingClock 3000) (Inr nullEntryPayload)) = None"
  by (simp add: nullEntryPayload_def optProp_def handleSend_settle_def newMessages_def
        toChatMessage_def Date_now_def settledStatus_def)

text \<open>
  C4, amended. When a successful send returns a payload with an \<open>agentStatus\<close> object and
  no \<open>null\<close> entry among its messages, the Agent Status Map is merged with it: every key
  of the payload takes the payload's value, every other key keeps the value it had when
  the response arrived.
\<close>

theorem handleSend_success_merges_status:
  assumes "optProp data ''agentStatus'' = JObj kvs" and "noNullEntries data"
  shows "\<exists>st' c'.
           handleSend_settle st c (Inr data) = Inr (st', c') \<and>
           (\<forall>k. fmlookup (agentStatus st') k =
                  (case fmlookup kvs k of Some v \<Rightarrow> Some v | None \<Rightarrow> fmlookup (agentStatus st) k))"
proof -
  from newMessages_ok [OF assms(2), of c] obtain new c1
    where "newMessages c data = Inr (new, c1)" by blast
  from settle_merge [OF this assms(1), of st] show ?thesis
    by (auto simp: fmdom_notI split: option.splits)
qed

theorem handleSend_success_merges_status_witness:
  "optProp statusPayload ''agentStatus'' = JObj (object [(''agent_rag'', JStr ''idle'')]) \<and>
   noNullEntries statusPayload \<and>
   (\<exists>st' c'.
      handleSend_settle statusExample (tickingClock 3000) (Inr statusPayload) = Inr (st', c') \<and>
      fmlookup (agentStatus st') ''agent_rag'' = Some (JStr ''idle'') \<and>
      fmlookup (agentStatus st') ''agent_planner'' = Some (JStr ''idle'') \<and>
      fmlookup (agentStatus st') ''agent_x'' = Some (JStr ''responding''))"
proof -
  note b = statusPayload_ok(1) and c = statusPayload_ok(2)
  have s: "fmlookup (agentStatus statusExample) ''agent_planner'' = Some (JStr ''idle'')"
          "fmlookup (agentStatus statusExample) ''agent_x'' = Some (JStr ''responding'')"
    by (simp_all add: statusExample_def busyState_def setInput_def inFlightState_facts)
  from handleSend_success_merges_status [OF b c, of statusExample "tickingClock 3000"]
  obtain st' c' where 1: "handleSend_settle statusExample (tickingClock 3000) (Inr statusPayload) = Inr (st', c')"
    and 2: "\<forall>k. fmlookup (agentStatus st') k =
                  (case fmlookup (object [(''agent_rag'', JStr ''idle'')]) k of Some v \<Rightarrow> Some v
                   | None \<Rightarrow> fmlookup (agentStatus statusExample) k)"
    by (elim exE conjE)
  from 2 [rule_format, of "''agent_rag''"] 2 [rule_format, of "''agent_planner''"]
    2 [rule_format, of "''agent_x''"] s
  have "fmlookup (agentStatus st') ''agent_rag'' = Some (JStr ''idle'')"
       "fmlookup (agentStatus st') ''agent_planner'' = Some (JStr ''idle'')"
       "fmlookup (agentStatus st') ''agent_x'' = Some (JStr ''responding'')"
    by simp_all
  with 1 have "\<exists>st' c'.
      handleSend_settle statusExample (tickingClock 3000) (Inr statusPayload) = Inr (st', c') \<and>
      fmlookup (agentStatus st') ''agent_rag'' = Some (JStr ''idle'') \<and>
      fmlookup (agentStatus st') ''agent_planner'' = Some (JStr ''idle'') \<and>
      fmlookup (agentStatus st') ''agent_x'' = Some (JStr ''responding'')"
    by (intro exI conjI)
  with b c show ?thesis by (intro conjI)
qed

text \<open>
  C9 as stated, with the entry's timestamp kept exactly when the entry carries one, fails:
  the first entry of this payload carries the timestamp 0, and the message appended for it
  is stamped with the clock's reading instead. (The second entry keeps its timestamp, the
  third has none.)
\<close>

theorem handleSend_timestamp_counterexample:
  "optProp (messageAt zeroStampPayload 0) ''timestamp'' = JNum 0 \<and>
   map timestamp (appended busyState
       (handleSend_settle busyState (tickingClock 3000) (Inr zeroStampPayload))) =
     [JNum 3001, JNum 1700000000000, JNum 3004]"
  by (simp add: zeroStampPayload_def zeroStampEntries_def messageAt_def optProp_def appended_def
        handleSend_settle_def newMessages_def toChatMessage_def Date_now_def tickingClock_def)

text \<open>
  C9, amended. For a successful response whose \<open>messages\<close> array has no \<open>null\<close> entry,
  \<open>handleSend\<close> appends one new message per entry, in order. The message of entry \<open>i\<close>
  has the generated id \<open>a_<Date.now()>_<i>\<close> (so the ids of one response are pairwise
  distinct) and the entry's role, agentId and content; its timestamp is the entry's
  timestamp when that is truthy, and a reading of the clock when it is falsy: absent,
  \<open>null\<close>, \<open>0\<close>, \<open>false\<close> or the empty string.
\<close>

theorem handleSend_appends_returned_messages:
  assumes "optProp data ''messages'' = JArr ms" and "noNullEntries data"
  shows "\<exists>st' c' new.
           handleSend_settle st c (Inr data) = Inr (st', c') \<and>
           messages st' = messages st @ new \<and> length new = length ms \<and>
           distinct (map msgId new) \<and>
           (\<forall>i<length ms.
              (\<exists>n. msgId (new ! i) = ''a_'' @ show_int (c n) @ ''_'' @ show_nat i) \<and>
              role (new ! i) = optProp (ms ! i) ''role'' \<and>
              agentId (new ! i) = optProp (ms ! i) ''agentId'' \<and>
              content (new ! i) = optProp (ms ! i) ''content'' \<and>
              (truthy (optProp (ms ! i) ''timestamp'') \<longrightarrow>
                 timestamp (new ! i) = optProp (ms ! i) ''timestamp'') \<and>
              (\<not> truthy (optProp (ms ! i) ''timestamp'') \<longrightarrow>
                 (\<exists>n. timestamp (new ! i) = JNum (c n))))"
proof -
  from assms have "list_all (\<lambda>m. \<not> nullish m) ms" by (simp add: noNullEntries_def)
  from mapMessages_entries [OF this, of c 0]
  obtain new k where run: "mapMessages c ms 0 = Inr (new, \<lambda>n. c (n + k))"
    and len: "length new = length ms"
    and ent: "\<forall>i<length ms.
              (\<exists>n. msgId (new ! i) = ''a_'' @ show_int (c n) @ ''_'' @ show_nat (0 + i)) \<and>
              role (new ! i) = optProp (ms ! i) ''role'' \<and>
              agentId (new ! i) = optProp (ms ! i) ''agentId'' \<and>
              content (new ! i) = optProp (ms ! i) ''content'' \<and>
              (truthy (optProp (ms ! i) ''timestamp'') \<longrightarrow>
                 timestamp (new ! i) = optProp (ms ! i) ''timestamp'') \<and>
              (\<not> truthy (optProp (ms ! i) ''timestamp'') \<longrightarrow>
                 (\<exists>n. timestamp (new ! i) = JNum (c n)))"
    by (elim exE conjE)
  from run assms(1) have "newMessages c data = Inr (new, \<lambda>n. c (n + k))"
    by (simp add: newMessages_def)
  from settle_appends [OF this, of st] obtain st'
    where st': "handleSend_settle st c (Inr data) = Inr (st', \<lambda>n. c (n + k))"
      and msgs: "messages st' = messages st @ new" by blast
  have "msgId (new ! i) \<noteq> msgId (new ! j)" if "i < length new" "j < length new" "i \<noteq> j" for i j
  proof
    assume eq: "msgId (new ! i) = msgId (new ! j)"
    from that len ent obtain n n'
      where "msgId (new ! i) = ''a_'' @ show_int (c n) @ ''_'' @ show_nat i"
        and "msgId (new ! j) = ''a_'' @ show_int (c n') @ ''_'' @ show_nat j"
      by (metis add_0)
    with eq have "i = j" by (intro agent_id_index [of "c n" i "c n'" j]) simp
    with that show False by simp
  qed
  then have dist: "distinct (map msgId new)"
    by (simp add: distinct_conv_nth)
  from ent have ent': "\<forall>i<length ms.
              (\<exists>n. msgId (new ! i) = ''a_'' @ show_int (c n) @ ''_'' @ show_nat i) \<and>
              role (new ! i) = optProp (ms ! i) ''role'' \<and>
              agentId (new ! i) = optProp (ms ! i) ''agentId'' \<and>
              content (new ! i) = optProp (ms ! i) ''content'' \<and>
              (truthy (optProp (ms ! i) ''timestamp'') \<longrightarrow>
                 timestamp (new ! i) = optProp (ms ! i) ''timestamp'') \<and>
              (\<not> truthy (optProp (ms ! i) ''timestamp'') \<longrightarrow>
                 (\<exists>n. timestamp (new ! i) = JNum (c n)))"
    by simp
  from st' msgs len dist ent' show ?thesis
    by (intro exI [of _ st'] exI [of _ "\<lambda>n. c (n + k)"] exI [of _ new] conjI)
qed


theorem handleSend_appends_returned_messages_witness:
  "optProp zeroStampPayload ''messages'' = JArr zeroStampEntries \<and> noNullEntries zeroStampPayload \<and>
   (\<exists>st' c' new.
      handleSend_settle busyState (tickingClock 3000) (Inr zeroStampPayload) = Inr (st', c') \<and>
      messages st' = messages busyState @ new \<and> length new = 3 \<and> distinct (map msgId new) \<and>
      content (new ! 0) = JStr ''hi'' \<and>
      (\<exists>n. timestamp (new ! 0) = JNum (tickingClock 3000 n)) \<and>
      timestamp (new ! 1) = JNum 1700000000000 \<and>
      agentId (new ! 2) = JUndefined)"
proof -
  have h1: "optProp zeroStampPayload ''messages'' = JArr zeroStampEntries"
    by (simp add: zeroStampPayload_def optProp_def)
  have h2: "noNullEntries zeroStampPayload"
    by (simp add: noNullEntries_def h1) (simp add: zeroStampEntries_def)
  have l: "length zeroStampEntries = 3" by (simp add: zeroStampEntries_def)
  have e: "optProp (zeroStampEntries ! 0) ''content'' = JStr ''hi''"
          "\<not> truthy (optProp (zeroStampEntries ! 0) ''timestamp'')"
          "truthy (optProp (zeroStampEntries ! 1) ''timestamp'')"
          "optProp (zeroStampEntries ! 1) ''timestamp'' = JNum 1700000000000"
          "optProp (zeroStampEntries ! 2) ''agentId'' = JUndefined"
    by (simp_all add: zeroStampEntries_def optProp_def)
  from handleSend_appends_returned_messages [OF h1 h2, of busyState "tickingClock 3000"]
  obtain st' c' new
    where 1: "handleSend_settle busyState (tickingClock 3000) (Inr zeroStampPayload) = Inr (st', c')"
      and 2: "messages st' = messages busyState @ new"
      and 3: "length new = length zeroStampEntries"
      and 4: "distinct (map msgId new)"
      and 5: "\<forall>i<length zeroStampEntries.
              (\<exists>n. msgId (new ! i) = ''a_'' @ show_int (tickingClock 3000 n) @ ''_'' @ show_nat i) \<and>
              role (new ! i) = optProp (zeroStampEntries ! i) ''role'' \<and>
              agentId (new ! i) = optProp (zeroStampEntries ! i) ''agentId'' \<and>
              content (new ! i) = optProp (zeroStampEntries ! i) ''content'' \<and>
              (truthy (optProp (zeroStampEntries ! i) ''timestamp'') \<longrightarrow>
                 timestamp (new ! i) = optProp (zeroStampEntries ! i) ''timestamp'') \<and>
              (\<not> truthy (optProp (zeroStampEntries ! i) ''timestamp'') \<longrightarrow>
                 (\<exists>n. timestamp (new ! i) = JNum (tickingClock 3000 n)))"
    by (elim exE conjE)
  from 3 l have len3: "length new = 3" by simp
  from 5 [rule_format, of 0] l e have a: "content (new ! 0) = JStr ''hi''"
    and b: "\<exists>n. timestamp (new ! 0) = JNum (tickingClock 3000 n)" by simp_all
  from 5 [rule_format, of 1] l e have c: "timestamp (new ! 1) = JNum 1700000000000" by simp
  from 5 [rule_format, of 2] l e have d: "agentId (new ! 2) = JUndefined" by simp
  from 1 2 len3 4 a b c d
  have "\<exists>st' c' new.
      handleSend_settle busyState (tickingClock 3000) (Inr zeroStampPayload) = Inr (st', c') \<and>
      messages st' = messages busyState @ new \<and> length new = 3 \<and> distinct (map msgId new) \<and>
      content (new ! 0) = JStr ''hi'' \<and>
      (\<exists>n. timestamp (new ! 0) = JNum (tickingClock 3000 n)) \<and>
      timestamp (new ! 1) = JNum 1700000000000 \<and>
      agentId (new ! 2) = JUndefined"
    by (intro exI [of _ st'] exI [of _ c'] exI [of _ new] conjI)
  with h1 h2 show ?thesis by (intro conjI)
qed

text \<open>
  Over a whole run the value that the merge finds for \<open>agent_rag\<close> and \<open>agent_planner\<close>
  is the optimistic one written when the send began: a key that the payload does not
  mention ends as \<open>thinking\<close>, as \<open>idle\<close>, or with the value it had before the send.
\<close>

lemma handleSend_run_status:
  assumes idle: "trim (input ren) \<noteq> []" "\<not> isSending ren"
    and resp: "sendMessageToBackend (trim (input ren)) fr = Inr data"
    and payload: "optProp data ''agentStatus'' = JObj kvs" "noNullEntries data"
  shows "\<exists>st' c'. handleSend ren st c fr = Inr (st', c') \<and>
           (\<forall>k. fmlookup (agentStatus st') k =
                  (case fmlookup kvs k of
                     Some v \<Rightarrow> Some v
                   | None \<Rightarrow>
                       if k = ''agent_rag'' then Some (JStr ''thinking'')
                       else if k = ''agent_planner'' then Some (JStr ''idle'')
                       else fmlookup (agentStatus st) k))"
proof -
  let ?c1 = "\<lambda>n. c (Suc (Suc n))"
  from newMessages_ok [OF payload(2), of ?c1] obtain new c2
    where "newMessages ?c1 data = Inr (new, c2)" by blast
  from settle_merge [OF this payload(1)] sync_idle [OF idle, of st c] resp
  show ?thesis
    by (auto simp: handleSend_def fmdom_notI split: option.splits)
qed

end
